theory Spec2Isabelle
  imports Main "HOL-Library.Word"
begin

unbundle bit_operations_syntax

section \<open>Data model of VM.cpp\<close>

type_synonym u8 = "8 word"
type_synonym u16 = "16 word"
type_synonym i32 = "32 word"

text \<open>\<^verbatim>\<open>constexpr size_t RAM_SIZE = 20 * 1024 * 1024; DISK_SIZE = 100 * 1024 * 1024\<close>\<close>

definition RAM_SIZE :: nat where
  "RAM_SIZE = 20 * 1024 * 1024"

definition DISK_SIZE :: nat where
  "DISK_SIZE = 100 * 1024 * 1024"

text \<open>
  Everything that stops \<^verbatim>\<open>execute\<close> other than leaving its loop is a value of
  \<open>error\<close>: the \<^verbatim>\<open>assert(addr < ..._SIZE)\<close> checks of the two stores, and an index
  outside \<^verbatim>\<open>uint8_t regs[4]\<close>, which is undefined behaviour in C++: the code has no
  check there, and the model stops at the access.
\<close>

datatype error =
    RamOutOfBounds
  | DiskOutOfBounds
  | RegisterIndexOutOfRange

text \<open>What the engine prints on \<^verbatim>\<open>std::cout\<close>: the prompt of IN and the line of OUT.\<close>

datatype out_event =
    Prompt u8
  | Output u8 u8

text \<open>
  The class \<^verbatim>\<open>CPU\<close> with the two stores it holds by reference and the three standard
  streams it uses. \<open>ram\<close> is \<^verbatim>\<open>RAM::memory\<close> and \<open>disk\<close> the bytes of the disk file,
  both indexed by a \<^verbatim>\<open>size_t\<close>; \<open>regs\<close> is indexed by the register number, only
  indices below 4 exist. \<open>cin k\<close> is the \<^verbatim>\<open>int\<close> that the \<open>k\<close>-th
  \<^verbatim>\<open>std::cin >> val\<close> leaves in \<^verbatim>\<open>val\<close> and \<open>cin_pos\<close> counts the extractions made
  (the code does not look at the state of the stream, and the model leaves out an
  extraction that blocks forever); \<open>cerr\<close> holds the opcodes reported as unknown.
\<close>

record cpu =
  ram :: "nat \<Rightarrow> u8"
  disk :: "nat \<Rightarrow> u8"
  regs :: "nat \<Rightarrow> u8"
  pc :: u16
  sp :: u8
  zf :: bool
  running :: bool
  cin :: "nat \<Rightarrow> i32"
  cin_pos :: nat
  cout :: "out_event list"
  cerr :: "u8 list"

text \<open>The member initialisers of \<^verbatim>\<open>CPU\<close>, over a given memory, disk and input.\<close>

definition cpu_init :: "(nat \<Rightarrow> u8) \<Rightarrow> (nat \<Rightarrow> u8) \<Rightarrow> (nat \<Rightarrow> i32) \<Rightarrow> cpu" where
  "cpu_init r d inp =
     \<lparr>ram = r, disk = d, regs = (\<lambda>_. 0), pc = 0, sp = 0xFF, zf = False,
      running = False, cin = inp, cin_pos = 0, cout = [], cerr = []\<rparr>"

text \<open>\<^verbatim>\<open>RAM() : memory(RAM_SIZE, 0)\<close>\<close>

definition ram_zero :: "nat \<Rightarrow> u8" where
  "ram_zero = (\<lambda>_. 0)"

text \<open>Sequencing of fallible operations: the first error ends the computation.\<close>

definition bind_err :: "error + 'a \<Rightarrow> ('a \<Rightarrow> error + 'b) \<Rightarrow> error + 'b" where
  "bind_err m f = (case m of Inl e \<Rightarrow> Inl e | Inr x \<Rightarrow> f x)"

section \<open>The stores\<close>

definition ram_read :: "(nat \<Rightarrow> u8) \<Rightarrow> nat \<Rightarrow> error + u8" where
  "ram_read m addr = (if addr < RAM_SIZE then Inr (m addr) else Inl RamOutOfBounds)"

definition ram_write :: "(nat \<Rightarrow> u8) \<Rightarrow> nat \<Rightarrow> u8 \<Rightarrow> error + (nat \<Rightarrow> u8)" where
  "ram_write m addr v = (if addr < RAM_SIZE then Inr (m(addr := v)) else Inl RamOutOfBounds)"

definition disk_read :: "(nat \<Rightarrow> u8) \<Rightarrow> nat \<Rightarrow> error + u8" where
  "disk_read d addr = (if addr < DISK_SIZE then Inr (d addr) else Inl DiskOutOfBounds)"

definition disk_write :: "(nat \<Rightarrow> u8) \<Rightarrow> nat \<Rightarrow> u8 \<Rightarrow> error + (nat \<Rightarrow> u8)" where
  "disk_write d addr v = (if addr < DISK_SIZE then Inr (d(addr := v)) else Inl DiskOutOfBounds)"

section \<open>The engine\<close>

text \<open>\<^verbatim>\<open>regs[i]\<close> read and written; the array has 4 entries.\<close>

definition reg_read :: "cpu \<Rightarrow> u8 \<Rightarrow> error + u8" where
  "reg_read s i = (if unat i < 4 then Inr (regs s (unat i)) else Inl RegisterIndexOutOfRange)"

definition reg_write :: "cpu \<Rightarrow> u8 \<Rightarrow> u8 \<Rightarrow> error + cpu" where
  "reg_write s i v =
     (if unat i < 4 then Inr (s\<lparr>regs := (regs s)(unat i := v)\<rparr>)
      else Inl RegisterIndexOutOfRange)"

text \<open>\<^verbatim>\<open>zf = (regs[operand] == 0);\<close>\<close>

definition update_zf :: "cpu \<Rightarrow> u8 \<Rightarrow> error + cpu" where
  "update_zf s i = bind_err (reg_read s i) (\<lambda>v. Inr (s\<lparr>zf := (v = 0)\<rparr>))"

text \<open>\<^verbatim>\<open>assert(pc < RAM_SIZE); return ram.read(pc++);\<close>\<close>

definition fetch :: "cpu \<Rightarrow> error + (u8 \<times> cpu)" where
  "fetch s =
     (if unat (pc s) < RAM_SIZE
      then bind_err (ram_read (ram s) (unat (pc s))) (\<lambda>b. Inr (b, s\<lparr>pc := pc s + 1\<rparr>))
      else Inl RamOutOfBounds)"

text \<open>\<^verbatim>\<open>ram.write(sp--, val);\<close>\<close>

definition push :: "u8 \<Rightarrow> cpu \<Rightarrow> error + cpu" where
  "push val s =
     bind_err (ram_write (ram s) (unat (sp s)) val) (\<lambda>m. Inr (s\<lparr>ram := m, sp := sp s - 1\<rparr>))"

text \<open>\<^verbatim>\<open>return ram.read(++sp);\<close>\<close>

definition pop :: "cpu \<Rightarrow> error + (u8 \<times> cpu)" where
  "pop s =
     (let s1 = s\<lparr>sp := sp s + 1\<rparr>
      in bind_err (ram_read (ram s1) (unat (sp s1))) (\<lambda>b. Inr (b, s1)))"

text \<open>\<^verbatim>\<open>(static_cast<uint16_t>(high) << 8) | low\<close>\<close>

definition addr16 :: "u8 \<Rightarrow> u8 \<Rightarrow> u16" where
  "addr16 low high = push_bit 8 (ucast high) OR ucast low"

text \<open>The two operand bytes of a three-byte instruction, low byte first.\<close>

definition fetch_addr :: "cpu \<Rightarrow> error + (u16 \<times> cpu)" where
  "fetch_addr s =
     bind_err (fetch s) (\<lambda>(low, s1).
     bind_err (fetch s1) (\<lambda>(high, s2). Inr (addr16 low high, s2)))"

text \<open>
  \<^verbatim>\<open>uint16_t res = regs[operand] + regs[reg_m]; regs[operand] = res & 0xFF;\<close>
  The operands are promoted to \<^verbatim>\<open>int\<close>, the sum is stored in 16 bits, masked as an
  \<^verbatim>\<open>int\<close> and stored in 8 bits.
\<close>

definition add_res :: "u8 \<Rightarrow> u8 \<Rightarrow> u8" where
  "add_res a b =
     (let res = (word_of_int (uint a + uint b) :: u16)
      in word_of_int (uint res AND 0xFF))"

text \<open>
  \<^verbatim>\<open>int16_t res = regs[operand] - regs[reg_m]; regs[operand] = res & 0xFF;\<close>
  Here the 16-bit intermediate is signed.
\<close>

definition sub_res :: "u8 \<Rightarrow> u8 \<Rightarrow> u8" where
  "sub_res a b =
     (let res = (word_of_int (uint a - uint b) :: u16)
      in word_of_int (sint res AND 0xFF))"

definition opcode_of :: "u8 \<Rightarrow> u8" where
  "opcode_of instr = drop_bit 4 instr"

definition operand_of :: "u8 \<Rightarrow> u8" where
  "operand_of instr = instr AND 0x0F"

text \<open>The \<^verbatim>\<open>switch (opcode)\<close> of \<^verbatim>\<open>execute\<close>, on the state after the instruction fetch.\<close>

definition exec_op :: "u8 \<Rightarrow> u8 \<Rightarrow> cpu \<Rightarrow> error + cpu" where
  "exec_op opcode operand s =
     (if opcode = 0x0 then Inr s
      else if opcode = 0x1 then
        bind_err (fetch s) (\<lambda>(imm, s1).
        bind_err (reg_write s1 operand imm) (\<lambda>s2. update_zf s2 operand))
      else if opcode = 0x2 then
        bind_err (fetch s) (\<lambda>(addr, s1).
        bind_err (reg_read s1 operand) (\<lambda>v.
        bind_err (ram_write (ram s1) (unat addr) v) (\<lambda>m. Inr (s1\<lparr>ram := m\<rparr>))))
      else if opcode = 0x3 then
        bind_err (fetch s) (\<lambda>(reg_m, s1).
        bind_err (reg_read s1 operand) (\<lambda>a.
        bind_err (reg_read s1 reg_m) (\<lambda>b.
        bind_err (reg_write s1 operand (add_res a b)) (\<lambda>s2. update_zf s2 operand))))
      else if opcode = 0x4 then
        bind_err (fetch s) (\<lambda>(reg_m, s1).
        bind_err (reg_read s1 operand) (\<lambda>a.
        bind_err (reg_read s1 reg_m) (\<lambda>b.
        bind_err (reg_write s1 operand (sub_res a b)) (\<lambda>s2. update_zf s2 operand))))
      else if opcode = 0x5 then
        bind_err (fetch_addr s) (\<lambda>(addr, s1). Inr (s1\<lparr>pc := addr\<rparr>))
      else if opcode = 0x6 then
        bind_err (fetch_addr s) (\<lambda>(addr, s1). Inr (if zf s1 then s1\<lparr>pc := addr\<rparr> else s1))
      else if opcode = 0x7 then
        bind_err (fetch_addr s) (\<lambda>(addr, s1).
        bind_err (push (ucast (drop_bit 8 (pc s1) AND 0xFF)) s1) (\<lambda>s2.
        bind_err (push (ucast (pc s2 AND 0xFF)) s2) (\<lambda>s3. Inr (s3\<lparr>pc := addr\<rparr>))))
      else if opcode = 0x8 then
        bind_err (pop s) (\<lambda>(low, s1).
        bind_err (pop s1) (\<lambda>(high, s2). Inr (s2\<lparr>pc := addr16 low high\<rparr>)))
      else if opcode = 0x9 then
        (let s1 = s\<lparr>cout := cout s @ [Prompt operand]\<rparr>;
             val = cin s1 (cin_pos s1);
             s2 = s1\<lparr>cin_pos := cin_pos s1 + 1\<rparr>
         in bind_err (reg_write s2 operand (ucast (val AND 0xFF))) (\<lambda>s3. update_zf s3 operand))
      else if opcode = 0xA then
        bind_err (reg_read s operand) (\<lambda>v. Inr (s\<lparr>cout := cout s @ [Output operand v]\<rparr>))
      else if opcode = 0xB then
        bind_err (fetch_addr s) (\<lambda>(addr, s1).
        bind_err (disk_read (disk s1) (unat addr)) (\<lambda>v.
        bind_err (reg_write s1 operand v) (\<lambda>s2. update_zf s2 operand)))
      else if opcode = 0xC then
        bind_err (fetch_addr s) (\<lambda>(addr, s1).
        bind_err (reg_read s1 operand) (\<lambda>v.
        bind_err (disk_write (disk s1) (unat addr) v) (\<lambda>d. Inr (s1\<lparr>disk := d\<rparr>))))
      else if opcode = 0xF then Inr (s\<lparr>running := False\<rparr>)
      else Inr (s\<lparr>cerr := cerr s @ [opcode], running := False\<rparr>))"

text \<open>One pass through the body of \<^verbatim>\<open>while (running)\<close>: fetch, decode, execute.\<close>

definition step :: "cpu \<Rightarrow> error + cpu" where
  "step s =
     bind_err (fetch s) (\<lambda>(instr, s1). exec_op (opcode_of instr) (operand_of instr) s1)"

text \<open>
  \<^verbatim>\<open>while (running) { ... }\<close>. The loop need not end; \<open>None\<close> is the run that never
  leaves it.
\<close>

partial_function (option) run :: "cpu \<Rightarrow> (error + cpu) option" where
  "run s =
     (if running s
      then (case step s of Inl e \<Rightarrow> Some (Inl e) | Inr s' \<Rightarrow> run s')
      else Some (Inr s))"

text \<open>\<^verbatim>\<open>void execute() { running = true; while (running) ... }\<close>\<close>

definition execute :: "cpu \<Rightarrow> (error + cpu) option" where
  "execute s = run (s\<lparr>running := True\<rparr>)"

text \<open>
  The state after at most \<open>k\<close> passes through the loop body: the prefixes of an
  execution, also of one that never ends.
\<close>

fun run_prefix :: "nat \<Rightarrow> cpu \<Rightarrow> error + cpu" where
  "run_prefix 0 s = Inr s"
| "run_prefix (Suc k) s =
     (if running s
      then (case step s of Inl e \<Rightarrow> Inl e | Inr s' \<Rightarrow> run_prefix k s')
      else Inr s)"

section \<open>Concrete machines\<close>

text \<open>
  A fresh machine whose memory holds the given bytes and is zero elsewhere, with a zero
  disk and an input of zeros.
\<close>

definition machine :: "(nat \<Rightarrow> u8) \<Rightarrow> cpu" where
  "machine m = cpu_init m ram_zero (\<lambda>_. 0)"

text \<open>ADD R0,R0 at address 0 with R0 = 200, and SUB R0,R1 with R0 = 1 and R1 = 2.\<close>

definition add_demo :: cpu where
  "add_demo = (machine (ram_zero(0 := 0x30, 1 := 0x00)))\<lparr>regs := (\<lambda>_. 0)(0 := 200)\<rparr>"

definition sub_demo :: cpu where
  "sub_demo = (machine (ram_zero(0 := 0x40, 1 := 0x01)))\<lparr>regs := (\<lambda>_. 0)(0 := 1, 1 := 2)\<rparr>"

text \<open>CALL 0x0010 at address 0 and RET at address 0x10.\<close>

definition call_demo :: cpu where
  "call_demo = machine (ram_zero(0 := 0x70, 1 := 0x10, 2 := 0x00, 0x10 := 0x80))"

text \<open>
  CALL 0x00FF at address 0 with RET at address 0xFF, which is where the stack pointer
  stands; the state after the CALL and the state after the instruction that follows.
\<close>

definition call_overwrite_demo :: cpu where
  "call_overwrite_demo = machine (ram_zero(0 := 0x70, 1 := 0xFF, 2 := 0x00, 0xFF := 0x80))"

definition call_overwrite_called :: cpu where
  "call_overwrite_called =
     call_overwrite_demo\<lparr>ram := (ram call_overwrite_demo)(0xFF := 0x00, 0xFE := 0x03),
       pc := 0xFF, sp := 0xFD\<rparr>"

definition call_overwrite_next :: cpu where
  "call_overwrite_next = call_overwrite_called\<lparr>pc := 0x100\<rparr>"

text \<open>The byte 0xD5 at address 0: opcode 0xD has no case in the switch.\<close>

definition unknown_demo :: cpu where
  "unknown_demo = machine (ram_zero(0 := 0xD5))"

text \<open>LOAD R2,0 then STORE R1,0x40, and the states after each of them.\<close>

definition load_demo :: cpu where
  "load_demo = machine (ram_zero(0 := 0x12, 1 := 0x00, 2 := 0x21, 3 := 0x40))"

definition load_done :: cpu where
  "load_done = load_demo\<lparr>regs := (regs load_demo)(2 := 0), pc := 2, zf := True\<rparr>"

definition store_done :: cpu where
  "store_done = load_done\<lparr>ram := (ram load_done)(0x40 := regs load_done 1), pc := 4\<rparr>"

text \<open>JZ 0x1234 at address 0.\<close>

definition jz_demo :: cpu where
  "jz_demo = machine (ram_zero(0 := 0x60, 1 := 0x34, 2 := 0x12))"

text \<open>
  DISK_WRITE R1,0x1234 at address 0 with R1 = 0x5A; and a fresh machine, as after a
  restart, over the disk so written, with DISK_READ R2,0x1234 at address 0.
\<close>

definition disk_demo :: cpu where
  "disk_demo =
     (machine (ram_zero(0 := 0xC1, 1 := 0x34, 2 := 0x12)))\<lparr>regs := (\<lambda>_. 0)(1 := 0x5A)\<rparr>"

definition disk_written :: "nat \<Rightarrow> u8" where
  "disk_written = ram_zero(0x1234 := 0x5A)"

definition restart_demo :: cpu where
  "restart_demo = cpu_init (ram_zero(0 := 0xB2, 1 := 0x34, 2 := 0x12)) disk_written (\<lambda>_. 0)"

text \<open>
  The bytes 0x10 0x05 0x1F 0x00 at address 0 with its state after the first instruction,
  and the bytes 0x10 0x05 0xF0 0x00 (LOAD R0,5; HALT) with its state after HALT.
\<close>

definition spec_program :: cpu where
  "spec_program = machine (ram_zero(0 := 0x10, 1 := 0x05, 2 := 0x1F, 3 := 0x00))"

definition spec_program_loaded :: cpu where
  "spec_program_loaded = spec_program\<lparr>regs := (regs spec_program)(0 := 5), pc := 2\<rparr>"

definition halt_program :: cpu where
  "halt_program = machine (ram_zero(0 := 0x10, 1 := 0x05, 2 := 0xF0, 3 := 0x00))"

definition halt_program_final :: cpu where
  "halt_program_final =
     halt_program\<lparr>regs := (regs halt_program)(0 := 5), pc := 3, running := False\<rparr>"

section \<open>Register operands\<close>

text \<open>
  The instruction at the program counter has its register operands within the register
  file: the low nibble when the opcode is LOAD, STORE, ADD, SUB, IN, OUT, DISK_READ or
  DISK_WRITE, and the second byte when it is ADD or SUB.
\<close>

definition operands_in_range :: "cpu \<Rightarrow> bool" where
  "operands_in_range s =
     (let instr = ram s (unat (pc s));
          opcode = opcode_of instr;
          operand = operand_of instr;
          reg_m = ram s (unat (pc s + 1))
      in (opcode \<in> {0x1, 0x2, 0x3, 0x4, 0x9, 0xA, 0xB, 0xC} \<longrightarrow> unat operand \<le> 3) \<and>
         (opcode \<in> {0x3, 0x4} \<longrightarrow> unat reg_m \<le> 3))"

section \<open>Basic facts\<close>

lemma unat_u16_lt_RAM_SIZE: "unat (a :: u16) < RAM_SIZE"
proof -
  have "unat a < 2 ^ 16" using unsigned_less [of a] by simp
  then show ?thesis by (simp add: RAM_SIZE_def)
qed

lemma unat_u16_lt_DISK_SIZE: "unat (a :: u16) < DISK_SIZE"
proof -
  have "unat a < 2 ^ 16" using unsigned_less [of a] by simp
  then show ?thesis by (simp add: DISK_SIZE_def)
qed

lemma unat_u8_lt_256: "unat (a :: u8) < 256"
  using unsigned_less [of a] by simp

lemma unat_u8_lt_RAM_SIZE: "unat (a :: u8) < RAM_SIZE"
  using unat_u8_lt_256 [of a] by (simp add: RAM_SIZE_def)

lemma fetch_eq: "fetch s = Inr (ram s (unat (pc s)), s\<lparr>pc := pc s + 1\<rparr>)"
  by (simp add: fetch_def ram_read_def bind_err_def unat_u16_lt_RAM_SIZE)

lemma push_eq: "push v s = Inr (s\<lparr>ram := (ram s)(unat (sp s) := v), sp := sp s - 1\<rparr>)"
  by (simp add: push_def ram_write_def bind_err_def unat_u8_lt_RAM_SIZE)

lemma pop_eq: "pop s = Inr (ram s (unat (sp s + 1)), s\<lparr>sp := sp s + 1\<rparr>)"
  by (simp add: pop_def ram_read_def bind_err_def unat_u8_lt_RAM_SIZE Let_def)

lemma fetch_addr_eq:
  "fetch_addr s =
     Inr (addr16 (ram s (unat (pc s))) (ram s (unat (pc s + 1))), s\<lparr>pc := pc s + 2\<rparr>)"
  by (simp add: fetch_addr_def fetch_eq bind_err_def add.assoc)


lemma and_255_word: "(x :: 'a::len word) AND 0xFF = take_bit 8 x"
proof -
  have "(0xFF :: 'a word) = mask 8" by (simp add: mask_eq_exp_minus_1)
  then show ?thesis by (simp add: take_bit_eq_mask)
qed

lemma and_255_int: "(x :: int) AND 0xFF = take_bit 8 x"
proof -
  have "(0xFF :: int) = mask 8" by (simp add: mask_eq_exp_minus_1)
  then show ?thesis by (simp add: take_bit_eq_mask)
qed

lemma and_15_word: "(x :: 'a::len word) AND 0x0F = take_bit 4 x"
proof -
  have "(0x0F :: 'a word) = mask 4" by (simp add: mask_eq_exp_minus_1)
  then show ?thesis by (simp add: take_bit_eq_mask)
qed

lemma addr16_split: "addr16 (ucast (p AND 0xFF)) (ucast (drop_bit 8 p AND 0xFF)) = p"
  unfolding addr16_def and_255_word
  by (rule bit_word_eqI) (auto simp: bit_simps)



lemma narrow_u16_u8: "(word_of_int (take_bit 8 (uint (word_of_int x :: u16))) :: u8) = word_of_int x"
  by (simp add: word_of_int_eq_iff uint_word_of_int_eq min_def)

lemma narrow_i16_u8: "(word_of_int (take_bit 8 (sint (word_of_int x :: u16))) :: u8) = word_of_int x"
  by (simp add: word_of_int_eq_iff sint_uint uint_word_of_int_eq take_bit_signed_take_bit min_def)

lemma add_res_eq: "add_res a b = a + b"
  unfolding add_res_def Let_def and_255_int narrow_u16_u8 by simp

lemma sub_res_eq: "sub_res a b = a - b"
  unfolding sub_res_def Let_def and_255_int narrow_i16_u8 by simp

lemma add_res_unat: "unat (add_res a b) = (unat a + unat b) mod 256"
  by (simp add: add_res_eq unat_word_ariths)

lemma sub_res_uint: "uint (sub_res a b) = (uint a - uint b) mod 256"
  by (simp add: sub_res_eq uint_word_ariths)


lemma step_eq:
  "step s = exec_op (opcode_of (ram s (unat (pc s)))) (operand_of (ram s (unat (pc s))))
              (s\<lparr>pc := pc s + 1\<rparr>)"
  by (simp add: step_def fetch_eq bind_err_def)

lemma exec_op_NOP: "exec_op 0x0 n s = Inr s"
  by (simp add: exec_op_def)

lemma exec_op_LOAD:
  "exec_op 0x1 n s =
     (if unat n < 4
      then Inr (s\<lparr>regs := (regs s)(unat n := ram s (unat (pc s))), pc := pc s + 1,
                  zf := (ram s (unat (pc s)) = 0)\<rparr>)
      else Inl RegisterIndexOutOfRange)"
  by (simp add: exec_op_def fetch_eq bind_err_def reg_write_def reg_read_def update_zf_def)

lemma exec_op_STORE:
  "exec_op 0x2 n s =
     (if unat n < 4
      then Inr (s\<lparr>ram := (ram s)(unat (ram s (unat (pc s))) := regs s (unat n)), pc := pc s + 1\<rparr>)
      else Inl RegisterIndexOutOfRange)"
  by (simp add: exec_op_def fetch_eq bind_err_def reg_read_def ram_write_def unat_u8_lt_RAM_SIZE)

lemma exec_op_ADD:
  "exec_op 0x3 n s =
     (let m = ram s (unat (pc s)) in
      if unat n < 4 \<and> unat m < 4
      then Inr (s\<lparr>regs := (regs s)(unat n := regs s (unat n) + regs s (unat m)), pc := pc s + 1,
                  zf := (regs s (unat n) + regs s (unat m) = 0)\<rparr>)
      else Inl RegisterIndexOutOfRange)"
  by (simp add: exec_op_def fetch_eq bind_err_def reg_write_def reg_read_def update_zf_def
      add_res_eq Let_def)

lemma exec_op_SUB:
  "exec_op 0x4 n s =
     (let m = ram s (unat (pc s)) in
      if unat n < 4 \<and> unat m < 4
      then Inr (s\<lparr>regs := (regs s)(unat n := regs s (unat n) - regs s (unat m)), pc := pc s + 1,
                  zf := (regs s (unat n) - regs s (unat m) = 0)\<rparr>)
      else Inl RegisterIndexOutOfRange)"
  by (simp add: exec_op_def fetch_eq bind_err_def reg_write_def reg_read_def update_zf_def
      sub_res_eq Let_def)

lemma exec_op_JMP:
  "exec_op 0x5 n s = Inr (s\<lparr>pc := addr16 (ram s (unat (pc s))) (ram s (unat (pc s + 1)))\<rparr>)"
  by (simp add: exec_op_def fetch_addr_eq bind_err_def)

lemma exec_op_JZ:
  "exec_op 0x6 n s =
     Inr (s\<lparr>pc := (if zf s then addr16 (ram s (unat (pc s))) (ram s (unat (pc s + 1)))
                     else pc s + 2)\<rparr>)"
  by (simp add: exec_op_def fetch_addr_eq bind_err_def)

lemma exec_op_CALL:
  "exec_op 0x7 n s =
     Inr (s\<lparr>ram := (ram s)(unat (sp s) := ucast (drop_bit 8 (pc s + 2) AND 0xFF),
                            unat (sp s - 1) := ucast ((pc s + 2) AND 0xFF)),
            pc := addr16 (ram s (unat (pc s))) (ram s (unat (pc s + 1))),
            sp := sp s - 2\<rparr>)"
  by (simp add: exec_op_def fetch_addr_eq push_eq bind_err_def)

lemma exec_op_RET:
  "exec_op 0x8 n s =
     Inr (s\<lparr>pc := addr16 (ram s (unat (sp s + 1))) (ram s (unat (sp s + 2))), sp := sp s + 2\<rparr>)"
  by (simp add: exec_op_def pop_eq bind_err_def add.assoc)

lemma exec_op_IN:
  "exec_op 0x9 n s =
     (if unat n < 4
      then Inr (s\<lparr>regs := (regs s)(unat n := ucast (cin s (cin_pos s) AND 0xFF)),
                  zf := (ucast (cin s (cin_pos s) AND 0xFF) = (0 :: u8)),
                  cin_pos := cin_pos s + 1, cout := cout s @ [Prompt n]\<rparr>)
      else Inl RegisterIndexOutOfRange)"
  by (simp add: exec_op_def bind_err_def reg_write_def reg_read_def update_zf_def Let_def)

lemma exec_op_OUT:
  "exec_op 0xA n s =
     (if unat n < 4 then Inr (s\<lparr>cout := cout s @ [Output n (regs s (unat n))]\<rparr>)
      else Inl RegisterIndexOutOfRange)"
  by (simp add: exec_op_def bind_err_def reg_read_def)

lemma exec_op_DISK_READ:
  "exec_op 0xB n s =
     (let addr = addr16 (ram s (unat (pc s))) (ram s (unat (pc s + 1))) in
      if unat n < 4
      then Inr (s\<lparr>regs := (regs s)(unat n := disk s (unat addr)), pc := pc s + 2,
                  zf := (disk s (unat addr) = 0)\<rparr>)
      else Inl RegisterIndexOutOfRange)"
  by (simp add: exec_op_def fetch_addr_eq bind_err_def reg_write_def reg_read_def update_zf_def
      disk_read_def unat_u16_lt_DISK_SIZE Let_def)

lemma exec_op_DISK_WRITE:
  "exec_op 0xC n s =
     (let addr = addr16 (ram s (unat (pc s))) (ram s (unat (pc s + 1))) in
      if unat n < 4
      then Inr (s\<lparr>disk := (disk s)(unat addr := regs s (unat n)), pc := pc s + 2\<rparr>)
      else Inl RegisterIndexOutOfRange)"
  by (simp add: exec_op_def fetch_addr_eq bind_err_def reg_read_def
      disk_write_def unat_u16_lt_DISK_SIZE Let_def)

lemma exec_op_HALT: "exec_op 0xF n s = Inr (s\<lparr>running := False\<rparr>)"
  by (simp add: exec_op_def)

lemma exec_op_other:
  "opcode \<notin> {0x0, 0x1, 0x2, 0x3, 0x4, 0x5, 0x6, 0x7, 0x8, 0x9, 0xA, 0xB, 0xC, 0xF} \<Longrightarrow>
   exec_op opcode n s = Inr (s\<lparr>cerr := cerr s @ [opcode], running := False\<rparr>)"
  by (simp add: exec_op_def)

lemma sp_slots_distinct: "unat (x - 1) \<noteq> unat (x :: u8)"
  by (simp add: word_unat_eq_iff [symmetric])

lemmas exec_op_known =
  exec_op_NOP exec_op_LOAD exec_op_STORE exec_op_ADD exec_op_SUB exec_op_JMP exec_op_JZ
  exec_op_CALL exec_op_RET exec_op_IN exec_op_OUT exec_op_DISK_READ exec_op_DISK_WRITE
  exec_op_HALT

lemma opcode_cases:
  fixes opcode :: u8
  obtains "opcode \<in> {0x0, 0x1, 0x2, 0x3, 0x4, 0x5, 0x6, 0x7, 0x8, 0x9, 0xA, 0xB, 0xC, 0xF}"
  | "opcode \<notin> {0x0, 0x1, 0x2, 0x3, 0x4, 0x5, 0x6, 0x7, 0x8, 0x9, 0xA, 0xB, 0xC, 0xF}"
  by blast

lemma exec_op_error: "exec_op opcode n s = Inl e \<Longrightarrow> e = RegisterIndexOutOfRange"
proof (cases opcode rule: opcode_cases)
  case 1
  assume "exec_op opcode n s = Inl e"
  with 1 show ?thesis
    by (auto simp: exec_op_known Let_def split: if_splits)
next
  case 2
  assume "exec_op opcode n s = Inl e"
  with exec_op_other [OF 2] show ?thesis by simp
qed

lemma step_error: "step s = Inl e \<Longrightarrow> e = RegisterIndexOutOfRange"
  by (simp add: step_eq exec_op_error)

lemma exec_op_disk:
  "exec_op opcode n s = Inr s' \<Longrightarrow>
   disk s' = (if opcode = 0xC
              then (disk s)(unat (addr16 (ram s (unat (pc s))) (ram s (unat (pc s + 1)))) :=
                     regs s (unat n))
              else disk s)"
proof (cases opcode rule: opcode_cases)
  case 1
  assume "exec_op opcode n s = Inr s'"
  with 1 show ?thesis
    by (auto simp: exec_op_known Let_def split: if_splits)
next
  case 2
  assume "exec_op opcode n s = Inr s'"
  with exec_op_other [OF 2] 2 show ?thesis by auto
qed

lemma step_disk_frame:
  assumes "step u = Inr u'"
    and "\<not> (opcode_of (ram u (unat (pc u))) = 0xC \<and>
            addr16 (ram u (unat (pc u + 1))) (ram u (unat (pc u + 2))) = a)"
  shows "disk u' (unat a) = disk u (unat a)"
  using assms exec_op_disk [of "opcode_of (ram u (unat (pc u)))" "operand_of (ram u (unat (pc u)))"
      "u\<lparr>pc := pc u + 1\<rparr>" u']
  by (auto simp: step_eq add.assoc word_unat_eq_iff [symmetric])

lemma exec_op_fault_iff:
  "exec_op opcode n s = Inl RegisterIndexOutOfRange \<longleftrightarrow>
     (opcode \<in> {0x1, 0x2, 0x3, 0x4, 0x9, 0xA, 0xB, 0xC} \<and> \<not> unat n \<le> 3) \<or>
     (opcode \<in> {0x3, 0x4} \<and> \<not> unat (ram s (unat (pc s))) \<le> 3)"
proof (cases opcode rule: opcode_cases)
  case 1
  then show ?thesis
    by (auto simp: exec_op_known Let_def split: if_splits)
next
  case 2
  with exec_op_other [OF 2] show ?thesis by auto
qed

lemma step_fault_iff: "step s = Inl RegisterIndexOutOfRange \<longleftrightarrow> \<not> operands_in_range s"
  by (auto simp: step_eq exec_op_fault_iff operands_in_range_def Let_def)

lemma run_prefix_Suc_end:
  "run_prefix (Suc k) s =
     (case run_prefix k s of
        Inl e \<Rightarrow> Inl e
      | Inr s' \<Rightarrow> if running s' then step s' else Inr s')"
proof (induction k arbitrary: s)
  case 0
  show ?case by (simp split: sum.splits)
next
  case (Suc k)
  show ?case
  proof (cases "running s")
    case False
    then show ?thesis by simp
  next
    case True
    show ?thesis
    proof (cases "step s")
      case (Inl e)
      with True show ?thesis by simp
    next
      case (Inr s1)
      have "run_prefix (Suc (Suc k)) s = run_prefix (Suc k) s1"
        using True Inr by simp
      also have "\<dots> = (case run_prefix k s1 of
          Inl e \<Rightarrow> Inl e | Inr s' \<Rightarrow> if running s' then step s' else Inr s')"
        by (rule Suc.IH)
      also have "run_prefix k s1 = run_prefix (Suc k) s"
        using True Inr by simp
      finally show ?thesis .
    qed
  qed
qed

lemma run_prefix_fault_source:
  "run_prefix k s = Inl e \<Longrightarrow>
   \<exists>j s'. run_prefix j s = Inr s' \<and> running s' \<and> step s' = Inl e"
proof (induction k)
  case 0
  then show ?case by simp
next
  case (Suc k)
  show ?case
  proof (cases "run_prefix k s")
    case (Inl e')
    with Suc.prems have "e' = e" by (simp add: run_prefix_Suc_end del: run_prefix.simps)
    with Inl Suc.IH show ?thesis by simp
  next
    case (Inr s')
    with Suc.prems have "running s' \<and> step s' = Inl e"
      by (simp add: run_prefix_Suc_end del: run_prefix.simps split: if_splits)
    with Inr show ?thesis by blast
  qed
qed

lemma run_prefix_no_store_error:
  "run_prefix k s \<noteq> Inl RamOutOfBounds \<and> run_prefix k s \<noteq> Inl DiskOutOfBounds"
proof (induction k arbitrary: s)
  case 0
  show ?case by simp
next
  case (Suc k)
  show ?case
  proof (cases "step s")
    case (Inl e)
    then have "e = RegisterIndexOutOfRange" by (rule step_error)
    with Inl show ?thesis by simp
  next
    case (Inr s1)
    with Suc.IH [of s1] show ?thesis by simp
  qed
qed

lemma run_is_prefix:
  assumes "run s = Some r"
  shows "\<exists>k. run_prefix k s = r"
proof (rule run.raw_induct [where P = "\<lambda>s r. \<exists>k. run_prefix k s = r", OF _ assms])
  fix run' :: "cpu \<Rightarrow> (error + cpu) option" and s r
  assume IH: "\<And>x y. run' x = Some y \<Longrightarrow> \<exists>k. run_prefix k x = y"
    and body: "(if running s
      then case step s of Inl e \<Rightarrow> Some (Inl e) | Inr s' \<Rightarrow> run' s'
      else Some (Inr s)) = Some r"
  show "\<exists>k. run_prefix k s = r"
  proof (cases "running s")
    case False
    with body have "run_prefix 0 s = r" by simp
    then show ?thesis ..
  next
    case True
    show ?thesis
    proof (cases "step s")
      case (Inl e)
      with True body have "run_prefix (Suc 0) s = r" by auto
      then show ?thesis ..
    next
      case (Inr s1)
      with True body have "run' s1 = Some r" by simp
      then obtain k where "run_prefix k s1 = r" using IH by blast
      with True Inr have "run_prefix (Suc k) s = r" by simp
      then show ?thesis ..
    qed
  qed
qed

lemma spec_program_load:
  "step (spec_program\<lparr>running := True\<rparr>) = Inr (spec_program_loaded\<lparr>running := True\<rparr>)"
  by (simp add: step_eq exec_op_LOAD spec_program_loaded_def spec_program_def machine_def
      cpu_init_def ram_zero_def opcode_of_def operand_of_def)

lemma spec_program_fault:
  "step (spec_program_loaded\<lparr>running := True\<rparr>) = Inl RegisterIndexOutOfRange"
  by (simp add: step_eq exec_op_LOAD spec_program_loaded_def spec_program_def machine_def
      cpu_init_def ram_zero_def opcode_of_def operand_of_def)

lemma spec_program_execute: "execute spec_program = Some (Inl RegisterIndexOutOfRange)"
proof -
  have "run (spec_program_loaded\<lparr>running := True\<rparr>) = Some (Inl RegisterIndexOutOfRange)"
    by (subst run.simps) (simp add: spec_program_fault)
  then show ?thesis
    unfolding execute_def by (subst run.simps) (simp add: spec_program_load)
qed

lemma halt_program_load:
  "step (halt_program\<lparr>running := True\<rparr>) =
     Inr (halt_program\<lparr>regs := (regs halt_program)(0 := 5), pc := 2, running := True\<rparr>)"
  by (simp add: step_eq exec_op_LOAD halt_program_def machine_def cpu_init_def ram_zero_def
      opcode_of_def operand_of_def)

lemma halt_program_halt:
  "step (halt_program\<lparr>regs := (regs halt_program)(0 := 5), pc := 2, running := True\<rparr>) =
     Inr halt_program_final"
  by (simp add: step_eq exec_op_HALT halt_program_final_def halt_program_def machine_def
      cpu_init_def ram_zero_def opcode_of_def operand_of_def)

lemma ucast_u8_u16_unat: "unat (ucast (b :: u8) :: u16) = unat b"
proof -
  have "unat b < 2 ^ 16" using unat_u8_lt_256 [of b] by simp
  then show ?thesis
    by (simp add: unsigned_ucast_eq take_bit_nat_eq_self)
qed

lemma addr16_unat: "unat (addr16 low high) = 256 * unat high + unat low"
proof -
  have disj: "push_bit 8 (ucast high :: u16) OR ucast low = push_bit 8 (ucast high) + ucast low"
    by (rule disjunctive_add [symmetric]) (auto simp: bit_simps dest: bit_imp_le_length)
  have h: "unat (push_bit 8 (ucast high :: u16)) = 256 * unat high"
    using unat_u8_lt_256 [of high]
    by (simp add: push_bit_eq_mult unat_word_ariths ucast_u8_u16_unat)
  show ?thesis
    unfolding addr16_def disj
    using unat_u8_lt_256 [of high] unat_u8_lt_256 [of low]
    by (simp add: unat_word_ariths h ucast_u8_u16_unat)
qed

lemma jz_demo_decode:
  "opcode_of (ram (jz_demo\<lparr>zf := z\<rparr>) (unat (pc (jz_demo\<lparr>zf := z\<rparr>)))) = 0x6"
  "0x34 = ram (jz_demo\<lparr>zf := z\<rparr>) (unat (pc (jz_demo\<lparr>zf := z\<rparr>) + 1))"
  "0x12 = ram (jz_demo\<lparr>zf := z\<rparr>) (unat (pc (jz_demo\<lparr>zf := z\<rparr>) + 2))"
  by (simp_all add: jz_demo_def machine_def cpu_init_def ram_zero_def opcode_of_def)

lemma jz_demo_target: "(0x1234 :: u16) = push_bit 8 (ucast (0x12 :: u8)) OR ucast (0x34 :: u8)"
  by simp

lemma jz_demo_state: "jz_demo\<lparr>zf := False\<rparr> = jz_demo" "pc jz_demo + 3 = 3" "\<not> zf jz_demo"
  by (simp_all add: jz_demo_def machine_def cpu_init_def)

section \<open>ADD and SUB\<close>

text \<open>
  Claim C2. For register indices \<open>n\<close> and \<open>m\<close> in 0..3 holding \<open>a\<close> and \<open>b\<close>, the
  instruction ADD n,m leaves \<open>(a + b) mod 256\<close> in register \<open>n\<close> and SUB n,m leaves
  \<open>(a - b) mod 256\<close> there; the value is the one computed through the 16-bit
  intermediate (\<open>add_res\<close>, \<open>sub_res\<close>), and the zero-flag afterwards says whether
  register \<open>n\<close> is 0.
\<close>

theorem add_sub_wrap:
  assumes n: "unat n < 4" and m: "unat m < 4"
    and operand: "operand_of (ram s (unat (pc s))) = n"
    and reg_m: "ram s (unat (pc s + 1)) = m"
    and a: "regs s (unat n) = a" and b: "regs s (unat m) = b"
  shows "(opcode_of (ram s (unat (pc s))) = 0x3 \<longrightarrow>
            (\<exists>s'. step s = Inr s' \<and> regs s' (unat n) = add_res a b \<and>
                  uint (regs s' (unat n)) = (uint a + uint b) mod 256 \<and>
                  zf s' = (regs s' (unat n) = 0))) \<and>
         (opcode_of (ram s (unat (pc s))) = 0x4 \<longrightarrow>
            (\<exists>s'. step s = Inr s' \<and> regs s' (unat n) = sub_res a b \<and>
                  uint (regs s' (unat n)) = (uint a - uint b) mod 256 \<and>
                  zf s' = (regs s' (unat n) = 0)))"
proof (intro conjI impI)
  assume op: "opcode_of (ram s (unat (pc s))) = 0x3"
  show "\<exists>s'. step s = Inr s' \<and> regs s' (unat n) = add_res a b \<and>
             uint (regs s' (unat n)) = (uint a + uint b) mod 256 \<and>
             zf s' = (regs s' (unat n) = 0)"
    using n m reg_m a b
    by (simp add: step_eq op operand exec_op_ADD add_res_eq uint_word_ariths)
next
  assume op: "opcode_of (ram s (unat (pc s))) = 0x4"
  show "\<exists>s'. step s = Inr s' \<and> regs s' (unat n) = sub_res a b \<and>
             uint (regs s' (unat n)) = (uint a - uint b) mod 256 \<and>
             zf s' = (regs s' (unat n) = 0)"
    using n m reg_m a b
    by (simp add: step_eq op operand exec_op_SUB sub_res_eq uint_word_ariths)
qed

theorem add_sub_wrap_witness:
  "(\<exists>s'. step add_demo = Inr s' \<and> regs s' 0 = 144 \<and> \<not> zf s') \<and>
   (\<exists>s'. step sub_demo = Inr s' \<and> regs s' 0 = 255 \<and> \<not> zf s')"
  using add_sub_wrap [of 0 0 add_demo 200 200] add_sub_wrap [of 0 1 sub_demo 1 2]
  by (auto simp: add_demo_def sub_demo_def machine_def cpu_init_def ram_zero_def
      opcode_of_def operand_of_def add_res_def sub_res_def)


section \<open>CALL and RET\<close>

text \<open>
  Claim C1, as stated, at a state where the target byte decodes to RET: with the stack
  pointer at 0xFF and the RET at address 0xFF, CALL 0x00FF pushes the high byte 0x00 of
  the return address over the RET, the instruction executed at 0xFF is then a NOP, and
  neither the program counter (0x100, not 3) nor the stack pointer (0xFD, not 0xFF) is
  restored.
\<close>

theorem call_ret_counterexample:
  "opcode_of (ram call_overwrite_demo (unat (pc call_overwrite_demo))) = 0x7 \<and>
   addr16 (ram call_overwrite_demo 1) (ram call_overwrite_demo 2) = 0xFF \<and>
   opcode_of (ram call_overwrite_demo 0xFF) = 0x8 \<and>
   step call_overwrite_demo = Inr call_overwrite_called \<and>
   opcode_of (ram call_overwrite_called (unat (pc call_overwrite_called))) = 0x0 \<and>
   step call_overwrite_called = Inr call_overwrite_next \<and>
   pc call_overwrite_next = 0x100 \<and> pc call_overwrite_next \<noteq> pc call_overwrite_demo + 3 \<and>
   sp call_overwrite_next = 0xFD \<and> sp call_overwrite_next \<noteq> sp call_overwrite_demo"
proof -
  have a: "step call_overwrite_demo = Inr call_overwrite_called"
    by (simp add: step_eq exec_op_CALL call_overwrite_called_def call_overwrite_demo_def
        machine_def cpu_init_def ram_zero_def opcode_of_def addr16_def)
  have b: "step call_overwrite_called = Inr call_overwrite_next"
    by (simp add: step_eq exec_op_NOP call_overwrite_next_def call_overwrite_called_def
        call_overwrite_demo_def machine_def cpu_init_def ram_zero_def opcode_of_def)
  show ?thesis
    using a b
    by (simp add: call_overwrite_next_def call_overwrite_called_def call_overwrite_demo_def
        machine_def cpu_init_def ram_zero_def opcode_of_def addr16_def)
qed

text \<open>
  Claim C1, amended. From any state whose next instruction is CALL addr, with addr
  assembled as 256 * high + low from the operand bytes: the CALL pushes the high byte
  and then the low byte of the address after its three bytes, writes no memory but
  these two stack slots, and jumps to addr. When the byte at addr decodes to RET after
  these pushes, and so whenever it decoded to RET before the CALL and addr is neither
  of the two stack slots, executing that RET sets the program counter to the address
  after the CALL and the stack pointer to its value before the CALL.
\<close>

theorem call_ret_symmetry:
  assumes call: "opcode_of (ram s (unat (pc s))) = 0x7"
    and target: "addr = addr16 (ram s (unat (pc s + 1))) (ram s (unat (pc s + 2)))"
  shows "\<exists>s1. step s = Inr s1 \<and> pc s1 = addr \<and>
           unat addr = 256 * unat (ram s (unat (pc s + 2))) + unat (ram s (unat (pc s + 1))) \<and>
           sp s1 = sp s - 2 \<and>
           ram s1 (unat (sp s)) = ucast (drop_bit 8 (pc s + 3) AND 0xFF) \<and>
           ram s1 (unat (sp s - 1)) = ucast ((pc s + 3) AND 0xFF) \<and>
           (\<forall>a. a \<noteq> unat (sp s) \<and> a \<noteq> unat (sp s - 1) \<longrightarrow> ram s1 a = ram s a) \<and>
           (opcode_of (ram s1 (unat addr)) = 0x8 \<longrightarrow>
              (\<exists>s2. step s1 = Inr s2 \<and> pc s2 = pc s + 3 \<and> sp s2 = sp s)) \<and>
           (opcode_of (ram s (unat addr)) = 0x8 \<and>
            unat addr \<noteq> unat (sp s) \<and> unat addr \<noteq> unat (sp s - 1) \<longrightarrow>
              (\<exists>s2. step s1 = Inr s2 \<and> pc s2 = pc s + 3 \<and> sp s2 = sp s))"
proof -
  define s1 where "s1 = s\<lparr>ram := (ram s)(unat (sp s) := ucast (drop_bit 8 (pc s + 3) AND 0xFF),
                            unat (sp s - 1) := ucast ((pc s + 3) AND 0xFF)),
            pc := addr, sp := sp s - 2\<rparr>"
  have st: "step s = Inr s1"
    by (simp add: step_eq call exec_op_CALL s1_def target add.assoc)
  have val: "unat addr =
      256 * unat (ram s (unat (pc s + 2))) + unat (ram s (unat (pc s + 1)))"
    by (simp add: target addr16_unat)
  have hi: "ram s1 (unat (sp s)) = ucast (drop_bit 8 (pc s + 3) AND 0xFF)"
    using sp_slots_distinct [of "sp s"] by (simp add: s1_def)
  have lo: "ram s1 (unat (sp s - 1)) = ucast ((pc s + 3) AND 0xFF)"
    by (simp add: s1_def)
  have frame: "\<forall>a. a \<noteq> unat (sp s) \<and> a \<noteq> unat (sp s - 1) \<longrightarrow> ram s1 a = ram s a"
    by (simp add: s1_def)
  have ret: "\<exists>s2. step s1 = Inr s2 \<and> pc s2 = pc s + 3 \<and> sp s2 = sp s"
    if r: "opcode_of (ram s1 (unat addr)) = 0x8"
  proof -
    have pc1: "pc s1 = addr" and sp1: "sp s1 = sp s - 2" by (simp_all add: s1_def)
    have "step s1 = Inr (s1\<lparr>pc := addr16 (ram s1 (unat (sp s - 1))) (ram s1 (unat (sp s))),
                            sp := sp s\<rparr>)"
      using r by (simp add: step_eq pc1 sp1 exec_op_RET)
    then show ?thesis
      by (simp add: hi lo addr16_split)
  qed
  have ret_before: "\<exists>s2. step s1 = Inr s2 \<and> pc s2 = pc s + 3 \<and> sp s2 = sp s"
    if "opcode_of (ram s (unat addr)) = 0x8 \<and>
        unat addr \<noteq> unat (sp s) \<and> unat addr \<noteq> unat (sp s - 1)"
    using that frame ret by simp
  have pcsp: "pc s1 = addr" "sp s1 = sp s - 2" by (simp_all add: s1_def)
  show ?thesis
    using st val hi lo frame ret ret_before pcsp by blast
qed

theorem call_ret_symmetry_witness:
  "\<exists>s1 s2. step call_demo = Inr s1 \<and> pc s1 = 0x10 \<and> sp s1 = 0xFD \<and>
           step s1 = Inr s2 \<and> pc s2 = 3 \<and> sp s2 = 0xFF"
  using call_ret_symmetry [of call_demo "0x10"]
  by (auto simp: call_demo_def machine_def cpu_init_def ram_zero_def opcode_of_def addr16_def)

section \<open>Unknown opcodes\<close>

text \<open>
  Claim C3. When the high nibble of the instruction byte is none of 0x0..0xC and 0xF, the
  engine appends the opcode to the diagnostics and stops running: the loop and
  \<open>execute\<close> return that state without an error, and registers, zero-flag and stack
  pointer (also memory and disk) are as before the instruction.
\<close>

theorem unknown_opcode_halts:
  assumes unknown: "opcode_of (ram s (unat (pc s))) \<notin>
      {0x0, 0x1, 0x2, 0x3, 0x4, 0x5, 0x6, 0x7, 0x8, 0x9, 0xA, 0xB, 0xC, 0xF}"
  shows "\<exists>s'. step s = Inr s' \<and> \<not> running s' \<and>
           cerr s' = cerr s @ [opcode_of (ram s (unat (pc s)))] \<and>
           regs s' = regs s \<and> zf s' = zf s \<and> sp s' = sp s \<and>
           ram s' = ram s \<and> disk s' = disk s \<and> pc s' = pc s + 1 \<and>
           (running s \<longrightarrow> run s = Some (Inr s')) \<and> execute s = Some (Inr s')"
proof -
  define s' where "s' = s\<lparr>pc := pc s + 1,
      cerr := cerr s @ [opcode_of (ram s (unat (pc s)))], running := False\<rparr>"
  have st: "step s = Inr s'"
    using exec_op_other [OF unknown] by (simp add: step_eq s'_def)
  have st': "step (s\<lparr>running := True\<rparr>) = Inr s'"
    using exec_op_other [OF unknown] by (simp add: step_eq s'_def)
  have halted: "run s' = Some (Inr s')"
    by (subst run.simps) (simp add: s'_def)
  have r: "running s \<longrightarrow> run s = Some (Inr s')"
    by (subst run.simps) (simp add: st halted)
  have e: "execute s = Some (Inr s')"
    unfolding execute_def by (subst run.simps) (simp add: st' halted)
  show ?thesis
    using st r e by (simp add: s'_def)
qed

theorem unknown_opcode_halts_witness:
  "\<exists>s'. execute unknown_demo = Some (Inr s') \<and> \<not> running s' \<and> cerr s' = [0xD] \<and>
        regs s' = regs unknown_demo \<and> zf s' = zf unknown_demo \<and> sp s' = sp unknown_demo"
  using unknown_opcode_halts [of unknown_demo]
  by (auto simp: unknown_demo_def machine_def cpu_init_def ram_zero_def opcode_of_def)

section \<open>The zero-flag\<close>

text \<open>
  Claim C4. After one executed instruction the zero-flag says whether the written register
  is 0 when the instruction is LOAD, ADD, SUB, IN or DISK_READ, and it is what it was
  before when the instruction is NOP, STORE, JMP, JZ, CALL, RET, OUT, DISK_WRITE or HALT.
\<close>

theorem zero_flag_frame:
  assumes st: "step s = Inr s'"
    and opcode: "opcode = opcode_of (ram s (unat (pc s)))"
    and operand: "operand = operand_of (ram s (unat (pc s)))"
  shows "(opcode \<in> {0x1, 0x3, 0x4, 0x9, 0xB} \<longrightarrow> zf s' = (regs s' (unat operand) = 0)) \<and>
         (opcode \<in> {0x0, 0x2, 0x5, 0x6, 0x7, 0x8, 0xA, 0xC, 0xF} \<longrightarrow> zf s' = zf s)"
proof -
  have ex: "exec_op opcode operand (s\<lparr>pc := pc s + 1\<rparr>) = Inr s'"
    using st by (simp add: step_eq opcode operand)
  have w: "zf s' = (regs s' (unat operand) = 0)" if "opcode \<in> {0x1, 0x3, 0x4, 0x9, 0xB}"
    using that ex
    by (auto simp: exec_op_LOAD exec_op_ADD exec_op_SUB exec_op_IN exec_op_DISK_READ Let_def
        split: if_splits)
  have f: "zf s' = zf s" if "opcode \<in> {0x0, 0x2, 0x5, 0x6, 0x7, 0x8, 0xA, 0xC, 0xF}"
    using that ex
    by (auto simp: exec_op_NOP exec_op_STORE exec_op_JMP exec_op_JZ exec_op_CALL exec_op_RET
        exec_op_OUT exec_op_DISK_WRITE exec_op_HALT Let_def split: if_splits)
  show ?thesis using w f by blast
qed

theorem zero_flag_frame_witness:
  "step load_demo = Inr load_done \<and> zf load_done \<and> regs load_done 2 = 0 \<and>
   step load_done = Inr store_done \<and> zf store_done"
proof -
  have a: "step load_demo = Inr load_done"
    by (simp add: step_eq exec_op_LOAD load_done_def load_demo_def machine_def cpu_init_def
        ram_zero_def opcode_of_def operand_of_def)
  have b: "step load_done = Inr store_done"
    by (simp add: step_eq exec_op_STORE store_done_def load_done_def load_demo_def machine_def
        cpu_init_def ram_zero_def opcode_of_def operand_of_def)
  show ?thesis
    using a b zero_flag_frame [OF a refl refl] zero_flag_frame [OF b refl refl]
    by (simp add: store_done_def load_done_def load_demo_def machine_def
        cpu_init_def ram_zero_def opcode_of_def operand_of_def)
qed

section \<open>JZ\<close>

text \<open>
  Claim C5. JZ with operand bytes low, fetched first, and high, fetched second, has the
  target \<open>(high << 8) | low\<close>, which is 256 * high + low. It changes nothing but the
  program counter, which becomes the target when the zero-flag is set and the address
  after the two operand bytes when it is clear (so, unless the target is that very
  address, it ends at the target exactly when the flag is set).
\<close>

theorem jz_transfers_iff_zero:
  assumes jz: "opcode_of (ram s (unat (pc s))) = 0x6"
    and low: "low = ram s (unat (pc s + 1))"
    and high: "high = ram s (unat (pc s + 2))"
    and target: "addr = push_bit 8 (ucast high) OR ucast low"
  shows "step s = Inr (s\<lparr>pc := (if zf s then addr else pc s + 3)\<rparr>) \<and>
         unat addr = 256 * unat high + unat low \<and>
         (addr \<noteq> pc s + 3 \<longrightarrow> (\<exists>s'. step s = Inr s' \<and> (pc s' = addr \<longleftrightarrow> zf s)))"
proof -
  have a: "addr = addr16 low high"
    by (simp add: target addr16_def)
  have st: "step s = Inr (s\<lparr>pc := (if zf s then addr else pc s + 3)\<rparr>)"
    by (simp add: step_eq jz exec_op_JZ a low high add.assoc)
  have val: "unat addr = 256 * unat high + unat low"
    by (simp add: a addr16_unat)
  show ?thesis
    using st val by simp
qed

theorem jz_transfers_iff_zero_witness:
  "step (jz_demo\<lparr>zf := True\<rparr>) = Inr (jz_demo\<lparr>zf := True, pc := 0x1234\<rparr>) \<and>
   step jz_demo = Inr (jz_demo\<lparr>pc := 3\<rparr>)"
proof -
  have a: "step (jz_demo\<lparr>zf := True\<rparr>) = Inr (jz_demo\<lparr>zf := True, pc := 0x1234\<rparr>)"
    using jz_transfers_iff_zero [OF jz_demo_decode [of True] jz_demo_target]
    by simp
  have b: "step jz_demo = Inr (jz_demo\<lparr>pc := 3\<rparr>)"
    using jz_transfers_iff_zero [OF jz_demo_decode [of False] jz_demo_target]
    by (simp add: jz_demo_state)
  show ?thesis using a b by simp
qed

section \<open>The stack pointer\<close>

text \<open>
  Claim C6. The stack pointer starts at 0xFF. A push writes at the address the 8-bit stack
  pointer holds, below 256, and decrements it modulo 256; a pop increments it modulo 256
  and reads at the new address, below 256. A push at 0x00 leaves 0xFF, a pop at 0xFF
  leaves 0x00, and from the initial 0xFF one push leaves 0xFE and the matching pop
  returns the pushed byte and 0xFF.
\<close>

theorem stack_pointer_wraps:
  "sp (cpu_init r d i) = 0xFF \<and>
   (\<exists>s'. push v s = Inr s' \<and> ram s' = (ram s)(unat (sp s) := v) \<and> unat (sp s) < 256 \<and>
         sp s' = sp s - 1 \<and> unat (sp s') = (unat (sp s) + 255) mod 256) \<and>
   (\<exists>s'. pop s = Inr (ram s (unat (sp s')), s') \<and> ram s' = ram s \<and> unat (sp s') < 256 \<and>
         sp s' = sp s + 1 \<and> unat (sp s') = (unat (sp s) + 1) mod 256) \<and>
   (\<exists>s'. push v (s\<lparr>sp := 0x00\<rparr>) = Inr s' \<and> sp s' = 0xFF) \<and>
   (\<exists>b s'. pop (s\<lparr>sp := 0xFF\<rparr>) = Inr (b, s') \<and> sp s' = 0x00) \<and>
   (\<exists>s1 s2. push v (cpu_init r d i) = Inr s1 \<and> sp s1 = 0xFE \<and>
            pop s1 = Inr (v, s2) \<and> sp s2 = 0xFF)"
proof -
  have "sp s - 1 = sp s + 255" by simp
  then have dec: "unat (sp s - 1) = (unat (sp s) + 255) mod 256"
    by (simp only: unat_word_ariths) simp
  have inc: "unat (sp s + 1) = (unat (sp s) + 1) mod 256"
    by (simp add: unat_word_ariths)
  show ?thesis
    by (simp add: push_eq pop_eq cpu_init_def unat_u8_lt_256 dec inc)
qed

theorem stack_pointer_wraps_witness:
  "\<exists>s1 s2. push 0x42 (machine ram_zero) = Inr s1 \<and> sp s1 = 0xFE \<and>
           pop s1 = Inr (0x42, s2) \<and> sp s2 = 0xFF"
  using stack_pointer_wraps [of ram_zero ram_zero "\<lambda>_. 0" "0x42"]
  by (simp add: machine_def)

section \<open>The persistent store\<close>

text \<open>
  Claim C7. DISK_WRITE n,a stores the byte of register \<open>n\<close> at \<open>a\<close> on the disk; a
  DISK_READ m,a executed in any later state, of this or of another invocation of
  \<open>execute\<close>, in which the disk still holds that byte at \<open>a\<close> loads it into register
  \<open>m\<close>; and no instruction other than a DISK_WRITE to \<open>a\<close> changes the disk at \<open>a\<close>.
\<close>

theorem disk_round_trip:
  assumes n: "unat n < 4" and m: "unat m < 4"
    and wr: "opcode_of (ram s (unat (pc s))) = 0xC" "operand_of (ram s (unat (pc s))) = n"
      "addr16 (ram s (unat (pc s + 1))) (ram s (unat (pc s + 2))) = a"
    and rd: "opcode_of (ram t (unat (pc t))) = 0xB" "operand_of (ram t (unat (pc t))) = m"
      "addr16 (ram t (unat (pc t + 1))) (ram t (unat (pc t + 2))) = a"
  shows "\<exists>s'. step s = Inr s' \<and> disk s' (unat a) = regs s (unat n) \<and>
           (disk t (unat a) = disk s' (unat a) \<longrightarrow>
              (\<exists>t'. step t = Inr t' \<and> regs t' (unat m) = regs s (unat n))) \<and>
           (\<forall>u u'. step u = Inr u' \<and>
                \<not> (opcode_of (ram u (unat (pc u))) = 0xC \<and>
                   addr16 (ram u (unat (pc u + 1))) (ram u (unat (pc u + 2))) = a) \<longrightarrow>
                disk u' (unat a) = disk u (unat a))"
proof -
  define s' where "s' = s\<lparr>disk := (disk s)(unat a := regs s (unat n)), pc := pc s + 3\<rparr>"
  have st: "step s = Inr s'"
    using n by (simp add: step_eq wr exec_op_DISK_WRITE s'_def add.assoc)
  have written: "disk s' (unat a) = regs s (unat n)"
    by (simp add: s'_def)
  have rt: "\<exists>t'. step t = Inr t' \<and> regs t' (unat m) = regs s (unat n)"
    if "disk t (unat a) = disk s' (unat a)"
    using m that written by (simp add: step_eq rd exec_op_DISK_READ add.assoc)
  have frame: "\<forall>u u'. step u = Inr u' \<and>
                \<not> (opcode_of (ram u (unat (pc u))) = 0xC \<and>
                   addr16 (ram u (unat (pc u + 1))) (ram u (unat (pc u + 2))) = a) \<longrightarrow>
                disk u' (unat a) = disk u (unat a)"
    using step_disk_frame by blast
  show ?thesis
    using st written rt frame by blast
qed

theorem disk_round_trip_witness:
  "(\<exists>s'. step disk_demo = Inr s' \<and> disk s' 0x1234 = disk_written 0x1234) \<and>
   (\<exists>t'. step restart_demo = Inr t' \<and> regs t' 2 = 0x5A)"
  using disk_round_trip [of 1 2 disk_demo "0x1234" restart_demo]
  by (auto simp: disk_demo_def restart_demo_def disk_written_def machine_def cpu_init_def
      ram_zero_def opcode_of_def operand_of_def addr16_def)

section \<open>The program 0x10 0x05 0x1F 0x00\<close>

text \<open>
  Claim C8, as stated, at its own input: \<open>execute\<close> does not return a halted state with
  R0 = 5. The byte 0x1F is LOAD with register index 15, and the run ends at that access.
\<close>

theorem spec_program_counterexample:
  "execute spec_program = Some (Inl RegisterIndexOutOfRange)"
  by (rule spec_program_execute)

text \<open>
  Claim C8, amended. With HALT (0xF0) as third byte, the program loaded at address 0 of
  an otherwise zero memory and executed from program counter 0 leaves R0 = 5 and the
  zero-flag false, and \<open>execute\<close> returns with the engine halted. With 0x1F as third
  byte the first instruction leaves R0 = 5 and the zero-flag false, and the second one
  decodes as LOAD with register index 15, outside the register file, where the run ends
  without a halt.
\<close>

theorem load_halt_program:
  "execute halt_program = Some (Inr halt_program_final) \<and>
   regs halt_program_final 0 = 5 \<and> \<not> zf halt_program_final \<and>
   \<not> running halt_program_final \<and>
   step spec_program = Inr spec_program_loaded \<and>
   regs spec_program_loaded 0 = 5 \<and> \<not> zf spec_program_loaded \<and>
   ram spec_program_loaded (unat (pc spec_program_loaded)) = 0x1F \<and>
   opcode_of 0x1F = 0x1 \<and> operand_of 0x1F = 0xF \<and>
   execute spec_program = Some (Inl RegisterIndexOutOfRange)"
proof -
  have "run halt_program_final = Some (Inr halt_program_final)"
    by (subst run.simps) (simp add: halt_program_final_def)
  then have "run (halt_program\<lparr>regs := (regs halt_program)(0 := 5), pc := 2, running := True\<rparr>) =
      Some (Inr halt_program_final)"
    by (subst run.simps) (simp add: halt_program_halt)
  then have e: "execute halt_program = Some (Inr halt_program_final)"
    unfolding execute_def by (subst run.simps) (simp add: halt_program_load)
  have f: "regs halt_program_final 0 = 5" "\<not> zf halt_program_final"
    "\<not> running halt_program_final"
    by (simp_all add: halt_program_final_def halt_program_def machine_def cpu_init_def)
  have l: "step spec_program = Inr spec_program_loaded"
    by (simp add: step_eq exec_op_LOAD spec_program_loaded_def spec_program_def machine_def
        cpu_init_def ram_zero_def opcode_of_def operand_of_def)
  have g: "regs spec_program_loaded 0 = 5" "\<not> zf spec_program_loaded"
    "ram spec_program_loaded (unat (pc spec_program_loaded)) = 0x1F"
    by (simp_all add: spec_program_loaded_def spec_program_def machine_def cpu_init_def
        ram_zero_def)
  have d: "opcode_of 0x1F = 0x1" "operand_of 0x1F = 0xF"
    by (simp_all add: opcode_of_def operand_of_def)
  show ?thesis
    using e f l g d spec_program_execute by simp
qed

section \<open>Register indices are not checked\<close>

text \<open>
  Claim C9. The register file has 4 entries and an access is out of range exactly for
  an index of 4 or more. An instruction makes such an access exactly when its low
  nibble, for LOAD, STORE, ADD, SUB, IN, OUT, DISK_READ and DISK_WRITE, or its second
  byte, for ADD and SUB, exceeds 3; so no prefix of an execution ends at an
  out-of-range access if and only if every instruction the execution reaches has these
  operands at most 3.
\<close>

theorem register_access_in_bounds_iff:
  "(reg_read s i = Inl RegisterIndexOutOfRange \<longleftrightarrow> 4 \<le> unat i) \<and>
   (reg_write s i v = Inl RegisterIndexOutOfRange \<longleftrightarrow> 4 \<le> unat i) \<and>
   (step s = Inl RegisterIndexOutOfRange \<longleftrightarrow> \<not> operands_in_range s) \<and>
   ((\<forall>k. run_prefix k s \<noteq> Inl RegisterIndexOutOfRange) \<longleftrightarrow>
    (\<forall>k s'. run_prefix k s = Inr s' \<and> running s' \<longrightarrow> operands_in_range s'))"
proof -
  have a: "\<exists>k. run_prefix k s = Inl RegisterIndexOutOfRange"
    if "run_prefix k s = Inr s'" "running s'" "\<not> operands_in_range s'" for k s'
  proof -
    have "run_prefix (Suc k) s = Inl RegisterIndexOutOfRange"
      using that by (simp add: run_prefix_Suc_end step_fault_iff del: run_prefix.simps)
    then show ?thesis ..
  qed
  have b: "\<exists>j s'. run_prefix j s = Inr s' \<and> running s' \<and> \<not> operands_in_range s'"
    if "run_prefix k s = Inl RegisterIndexOutOfRange" for k
    using run_prefix_fault_source [OF that] by (simp add: step_fault_iff)
  have "(\<forall>k. run_prefix k s \<noteq> Inl RegisterIndexOutOfRange) \<longleftrightarrow>
      (\<forall>k s'. run_prefix k s = Inr s' \<and> running s' \<longrightarrow> operands_in_range s')"
    using a b by blast
  then show ?thesis
    by (simp add: reg_read_def reg_write_def step_fault_iff not_less)
qed

theorem register_access_in_bounds_iff_witness:
  "run_prefix 2 (spec_program\<lparr>running := True\<rparr>) = Inl RegisterIndexOutOfRange \<and>
   (\<exists>k s'. run_prefix k (spec_program\<lparr>running := True\<rparr>) = Inr s' \<and> running s' \<and>
           \<not> operands_in_range s')"
proof -
  have f: "run_prefix 2 (spec_program\<lparr>running := True\<rparr>) = Inl RegisterIndexOutOfRange"
    by (simp add: numeral_2_eq_2 spec_program_load spec_program_fault)
  then have "\<not> (\<forall>k. run_prefix k (spec_program\<lparr>running := True\<rparr>) \<noteq>
      Inl RegisterIndexOutOfRange)"
    by blast
  with register_access_in_bounds_iff [of "spec_program\<lparr>running := True\<rparr>"] f
  show ?thesis by blast
qed

section \<open>Store addresses\<close>

text \<open>
  Claim C10. Every address the engine passes to a store is within it: fetch addresses are
  below 65536, stack and STORE addresses below 256, the memory has 20 MiB; disk
  addresses are below 65536 and the disk has 100 MiB. So no fetch, push, pop, STORE or
  disk access, no instruction, no prefix of an execution and no execution that returns
  ends in an out-of-bounds failure of either store.
\<close>

theorem store_accesses_in_bounds:
  "RAM_SIZE = 20 * 1024 * 1024 \<and> DISK_SIZE = 100 * 1024 * 1024 \<and>
   unat (pc s) < 65536 \<and> 65536 \<le> RAM_SIZE \<and> (\<exists>b s'. fetch s = Inr (b, s')) \<and>
   unat (sp s) < 256 \<and> (\<exists>s'. push v s = Inr s') \<and> (\<exists>b s'. pop s = Inr (b, s')) \<and>
   unat (addr8 :: u8) < 256 \<and> (\<exists>m. ram_write (ram s) (unat addr8) v = Inr m) \<and>
   unat (a16 :: u16) < 65536 \<and> 65536 \<le> DISK_SIZE \<and>
   (\<exists>b. disk_read (disk s) (unat a16) = Inr b) \<and>
   (\<exists>d. disk_write (disk s) (unat a16) v = Inr d) \<and>
   step s \<noteq> Inl RamOutOfBounds \<and> step s \<noteq> Inl DiskOutOfBounds \<and>
   run_prefix k s \<noteq> Inl RamOutOfBounds \<and> run_prefix k s \<noteq> Inl DiskOutOfBounds \<and>
   run s \<noteq> Some (Inl RamOutOfBounds) \<and> run s \<noteq> Some (Inl DiskOutOfBounds) \<and>
   execute s \<noteq> Some (Inl RamOutOfBounds) \<and> execute s \<noteq> Some (Inl DiskOutOfBounds)"
proof -
  have w16: "unat w < 65536" for w :: u16
    using unsigned_less [of w] by simp
  have sizes: "65536 \<le> RAM_SIZE" "65536 \<le> DISK_SIZE"
    by (simp_all add: RAM_SIZE_def DISK_SIZE_def)
  have st: "step s \<noteq> Inl RamOutOfBounds \<and> step s \<noteq> Inl DiskOutOfBounds"
    using step_error [of s] by auto
  have r: "run t \<noteq> Some (Inl RamOutOfBounds) \<and> run t \<noteq> Some (Inl DiskOutOfBounds)" for t
    using run_is_prefix [of t] run_prefix_no_store_error by blast
  show ?thesis
    using st r [of s] r [of "s\<lparr>running := True\<rparr>"] run_prefix_no_store_error [of k s] sizes
    by (simp add: fetch_eq push_eq pop_eq ram_write_def disk_read_def disk_write_def w16
        unat_u8_lt_256 unat_u8_lt_RAM_SIZE unat_u16_lt_DISK_SIZE execute_def)
       (simp add: RAM_SIZE_def DISK_SIZE_def)
qed

theorem store_accesses_in_bounds_witness:
  "(\<exists>b s'. fetch (halt_program\<lparr>pc := 0xFFFF\<rparr>) = Inr (b, s')) \<and>
   execute (halt_program\<lparr>pc := 0xFFFF\<rparr>) \<noteq> Some (Inl RamOutOfBounds) \<and>
   execute (halt_program\<lparr>pc := 0xFFFF\<rparr>) \<noteq> Some (Inl DiskOutOfBounds)"
  using store_accesses_in_bounds [of "halt_program\<lparr>pc := 0xFFFF\<rparr>"]
  by simp

end
